theory Spec2Isabelle
  imports Main "HOL-Library.Sublist"
begin

section \<open>Addresses and the pattern of the address classifier\<close>

text \<open>
  An address is a JavaScript string. It is modelled as a \<^typ>\<open>string\<close>, one \<^typ>\<open>char\<close>
  for each code unit: the script only compares code units with ASCII literals, appends
  and searches, so the width of a code unit plays no role.

  \<^verbatim>\<open>isChannelMainPage\<close> applies \<^verbatim>\<open>RegExp.prototype.test\<close> to the literal
  \<^verbatim>\<open>/youtube\.com\/((@[^/]+)|(c\/[^/]+)|(channel\/[^/]+)|(user\/[^/]+))$/\<close>.
  The literal has no flag, so \<^verbatim>\<open>$\<close> holds at the end of the input only, the class
  \<^verbatim>\<open>[^/]\<close> accepts every code unit but the slash, and \<^verbatim>\<open>test\<close> tries every start
  index from 0 to the length of the input. The constructs the literal uses are the
  constructors of \<open>rx\<close>; groups only capture and are not represented.
\<close>

datatype cclass = Lit char | NotLit char

fun cclass_ok :: "cclass \<Rightarrow> char \<Rightarrow> bool" where
  "cclass_ok (Lit c) x = (x = c)"
| "cclass_ok (NotLit c) x = (x \<noteq> c)"

datatype rx = Atom cclass | OneOrMore cclass | Seq rx rx | Alt rx rx | EndOfInput

text \<open>
  \<open>rx_run r s\<close> lists what is left of \<open>s\<close> after each way of matching \<open>r\<close> at its start, in
  the order the backtracking matcher tries them (a greedy \<^verbatim>\<open>+\<close> tries the longest
  run first).
\<close>

fun plus_run :: "cclass \<Rightarrow> string \<Rightarrow> string list" where
  "plus_run k [] = []"
| "plus_run k (x # s) = (if cclass_ok k x then plus_run k s @ [s] else [])"

fun rx_run :: "rx \<Rightarrow> string \<Rightarrow> string list" where
  "rx_run (Atom k) s = (case s of [] \<Rightarrow> [] | x # t \<Rightarrow> if cclass_ok k x then [t] else [])"
| "rx_run (OneOrMore k) s = plus_run k s"
| "rx_run (Seq a b) s = concat (map (rx_run b) (rx_run a s))"
| "rx_run (Alt a b) s = rx_run a s @ rx_run b s"
| "rx_run EndOfInput s = (if s = [] then [[]] else [])"

text \<open>\<^verbatim>\<open>test\<close>: a match at the first start index that has one, the end of the input included.\<close>

fun rx_test :: "rx \<Rightarrow> string \<Rightarrow> bool" where
  "rx_test r [] = (rx_run r [] \<noteq> [])"
| "rx_test r (x # s) = (rx_run r (x # s) \<noteq> [] \<or> rx_test r s)"

text \<open>A run of literal characters in front of the rest of an alternative.\<close>

fun lits :: "string \<Rightarrow> rx \<Rightarrow> rx" where
  "lits [] r = r"
| "lits (c # cs) r = Seq (Atom (Lit c)) (lits cs r)"

definition name_part :: rx where
  "name_part = OneOrMore (NotLit CHR ''/'')"

definition channelPattern :: rx where
  "channelPattern =
     lits ''youtube.com/''
       (Seq (Alt (lits ''@'' name_part)
            (Alt (lits ''c/'' name_part)
            (Alt (lits ''channel/'' name_part)
                 (lits ''user/'' name_part))))
            EndOfInput)"

definition isChannelMainPage :: "string \<Rightarrow> bool" where
  "isChannelMainPage url = rx_test channelPattern url"

text \<open>
  \<^verbatim>\<open>String.prototype.includes\<close>: the search string occurs at some index of the string.
\<close>

fun str_includes :: "string \<Rightarrow> string \<Rightarrow> bool" where
  "str_includes [] t = (t = [])"
| "str_includes (x # s) t = (prefix t (x # s) \<or> str_includes s t)"

definition isOnVideosTab :: "string \<Rightarrow> bool" where
  "isOnVideosTab url = str_includes url ''/videos''"

definition getVideosUrl :: "string \<Rightarrow> string" where
  "getVideosUrl currentUrl = currentUrl @ ''/videos''"

section \<open>The page, the tab activator and the orchestrator\<close>

text \<open>
  What the script reads and writes in its host page. \<open>querySelector\<close> is the page's
  \<^verbatim>\<open>document.querySelector\<close>, a parameter of the model; \<open>href\<close> is
  \<^verbatim>\<open>window.location.href\<close>. The effects of the script are recorded in order:
  \<open>clicked\<close> the elements whose \<^verbatim>\<open>click()\<close> was called, \<open>console\<close> the arguments of each
  \<^verbatim>\<open>console.log\<close>, \<open>scheduled\<close> the arguments of each call of the injected scheduler
  \<^verbatim>\<open>setTimeoutFn\<close>. What the page does in answer to a click, and when a scheduler runs
  a callback, belong to the host.

  The only function the script ever passes to the scheduler is the arrow function of
  \<^verbatim>\<open>switchToVideosTab\<close>, which closes over \<^verbatim>\<open>currentUrl\<close>: \<open>Retry currentUrl\<close>.
\<close>

type_synonym element = nat

datatype callback = Retry string

record browser =
  querySelector :: "string \<Rightarrow> element option"
  href :: string
  clicked :: "element list"
  console :: "string list list"
  scheduled :: "(callback \<times> nat) list"

definition console_log :: "string list \<Rightarrow> browser \<Rightarrow> browser" where
  "console_log args b = b\<lparr>console := console b @ [args]\<rparr>"

definition selectors :: "string list" where
  \<open>selectors =
     [''a[href*="/videos"][role="tab"]'',
      ''yt-tab-shape[tab-title*="Videos"] a'',
      ''tp-yt-paper-tab a[href*="/videos"]'']\<close>

fun clickFirst :: "string list \<Rightarrow> browser \<Rightarrow> bool \<times> browser" where
  "clickFirst [] b = (False, b)"
| "clickFirst (selector # rest) b =
     (case querySelector b selector of
        Some tab \<Rightarrow>
          (True, console_log [''[YouTube Videos Tab] Clicked Videos tab'']
                   (b\<lparr>clicked := clicked b @ [tab]\<rparr>))
      | None \<Rightarrow> clickFirst rest b)"

definition clickVideosTab :: "browser \<Rightarrow> bool \<times> browser" where
  "clickVideosTab b = clickFirst selectors b"

definition navigateToVideosTab :: "string \<Rightarrow> browser \<Rightarrow> browser" where
  "navigateToVideosTab currentUrl b =
     (let videosUrl = getVideosUrl currentUrl;
          b1 = b\<lparr>href := videosUrl\<rparr>
      in console_log [''[YouTube Videos Tab] Navigated to:'', videosUrl] b1)"

definition switchToVideosTab :: "string \<Rightarrow> browser \<Rightarrow> browser" where
  "switchToVideosTab currentUrl b =
     (if \<not> isChannelMainPage currentUrl \<or> isOnVideosTab currentUrl then b
      else
        let b1 = console_log [''[YouTube Videos Tab] Channel main page detected''] b;
            (was_clicked, b2) = clickVideosTab b1
        in if \<not> was_clicked
           then b2\<lparr>scheduled := scheduled b2 @ [(Retry currentUrl, 500)]\<rparr>
           else b2)"

text \<open>Running the function that was passed to the scheduler, in the page as it is then.\<close>

fun run_callback :: "callback \<Rightarrow> browser \<Rightarrow> browser" where
  "run_callback (Retry currentUrl) b =
     (case clickVideosTab b of
        (True, b1) \<Rightarrow> b1
      | (False, b1) \<Rightarrow> navigateToVideosTab currentUrl b1)"

section \<open>The change observer\<close>

text \<open>
  The script attached to a page: its variable \<^verbatim>\<open>lastUrl\<close> and the page. \<open>switchCalls\<close>
  records the argument of each call of \<^verbatim>\<open>switchToVideosTab\<close> the attached script makes,
  oldest first, as a spy on the function would.
\<close>

record observer =
  lastUrl :: string
  page :: browser
  switchCalls :: "string list"

definition attach :: "browser \<Rightarrow> observer" where
  "attach b =
     (let lastUrl0 = href b;
          b1 = switchToVideosTab (href b) b;
          b2 = console_log [''[YouTube Videos Tab] Extension initialized''] b1
      in \<lparr>lastUrl = lastUrl0, page = b2, switchCalls = [href b]\<rparr>)"

definition handleUrlChange :: "observer \<Rightarrow> observer" where
  "handleUrlChange st =
     (let currentUrl = href (page st) in
      if currentUrl \<noteq> lastUrl st then
        let st1 = st\<lparr>lastUrl := currentUrl\<rparr>;
            st2 = st1\<lparr>page := console_log [''[YouTube Videos Tab] URL changed:'', currentUrl] (page st1)\<rparr>
        in st2\<lparr>page := switchToVideosTab currentUrl (page st2),
               switchCalls := switchCalls st2 @ [currentUrl]\<rparr>
      else st)"

text \<open>
  What can happen to an attached script: a mutation notification runs
  \<^verbatim>\<open>handleUrlChange\<close>; a scheduler runs a callback it was given; the host page or the
  user changes the page in any way (in-page navigation, a tab that loads).
\<close>

datatype event = Mutation | Timer callback | Host "browser \<Rightarrow> browser"

fun step :: "event \<Rightarrow> observer \<Rightarrow> observer" where
  "step Mutation st = handleUrlChange st"
| "step (Timer cb) st = st\<lparr>page := run_callback cb (page st)\<rparr>"
| "step (Host f) st = st\<lparr>page := f (page st)\<rparr>"

fun run :: "event list \<Rightarrow> observer \<Rightarrow> observer" where
  "run [] st = st"
| "run (e # es) st = run es (step e st)"

section \<open>Notions used to state the properties\<close>

text \<open>The four path styles in front of a channel identifier.\<close>

definition channel_prefixes :: "string list" where
  "channel_prefixes = [''@'', ''c/'', ''channel/'', ''user/'']"

text \<open>
  The invariant of the change observer: the script has called \<^verbatim>\<open>switchToVideosTab\<close>, and
  \<^verbatim>\<open>lastUrl\<close> is the argument of its latest call.
\<close>

definition observer_inv :: "observer \<Rightarrow> bool" where
  "observer_inv st = (switchCalls st \<noteq> [] \<and> lastUrl st = last (switchCalls st))"

text \<open>
  Two pages to run the script on: one where no selector finds an element, one where the
  first selector finds the element 7.
\<close>

definition blank_page :: "string \<Rightarrow> browser" where
  "blank_page url =
     \<lparr>querySelector = (\<lambda>selector. None), href = url, clicked = [], console = [],
      scheduled = []\<rparr>"

definition tab_page :: "string \<Rightarrow> browser" where
  "tab_page url =
     (blank_page url)
       \<lparr>querySelector := (\<lambda>selector. if selector = hd selectors then Some 7 else None)\<rparr>"

section \<open>The pattern, read as a property of the address\<close>

lemma plus_run_iff:
  "t \<in> set (plus_run k s) \<longleftrightarrow> (\<exists>u. s = u @ t \<and> u \<noteq> [] \<and> (\<forall>x\<in>set u. cclass_ok k x))"
proof (induction s)
  case Nil
  then show ?case by simp
next
  case (Cons x s)
  show ?case
  proof (cases "cclass_ok k x")
    case False
    then show ?thesis
      by (auto simp: Cons_eq_append_conv)
  next
    case True
    have "t \<in> set (plus_run k (x # s)) \<longleftrightarrow> t \<in> set (plus_run k s) \<or> t = s"
      using True by auto
    also have "\<dots> \<longleftrightarrow> (\<exists>u. x # s = u @ t \<and> u \<noteq> [] \<and> (\<forall>y\<in>set u. cclass_ok k y))"
      (is "?L \<longleftrightarrow> ?R")
    proof
      assume ?L
      then show ?R
      proof
        assume "t \<in> set (plus_run k s)"
        then obtain u where "s = u @ t" "u \<noteq> []" "\<forall>y\<in>set u. cclass_ok k y"
          using Cons.IH by blast
        then have "x # s = (x # u) @ t \<and> x # u \<noteq> [] \<and> (\<forall>y\<in>set (x # u). cclass_ok k y)"
          using True by simp
        then show ?R by blast
      next
        assume "t = s"
        then have "x # s = [x] @ t \<and> [x] \<noteq> [] \<and> (\<forall>y\<in>set [x]. cclass_ok k y)"
          using True by simp
        then show ?R by blast
      qed
    next
      assume ?R
      then obtain u where u: "x # s = u @ t" "u \<noteq> []" "\<forall>y\<in>set u. cclass_ok k y"
        by blast
      then obtain v where v: "u = x # v" "s = v @ t"
        by (cases u) auto
      show ?L
      proof (cases "v = []")
        case True
        then show ?thesis using v by simp
      next
        case False
        then show ?thesis using v u Cons.IH by auto
      qed
    qed
    finally show ?thesis .
  qed
qed

lemma lits_run_iff:
  "t \<in> set (rx_run (lits w r) s) \<longleftrightarrow> (\<exists>m. s = w @ m \<and> t \<in> set (rx_run r m))"
  by (induction w arbitrary: s) (auto split: list.splits)

lemma name_part_run_iff:
  "t \<in> set (rx_run name_part s) \<longleftrightarrow> (\<exists>u. s = u @ t \<and> u \<noteq> [] \<and> CHR ''/'' \<notin> set u)"
  by (auto simp: name_part_def plus_run_iff)

lemma rx_test_iff: "rx_test r s \<longleftrightarrow> (\<exists>pre m. s = pre @ m \<and> rx_run r m \<noteq> [])"
proof (induction s)
  case Nil
  then show ?case by simp
next
  case (Cons x s)
  show ?case
    by (auto simp: Cons.IH Cons_eq_append_conv)
qed

lemma nonempty_iff_member: "xs \<noteq> [] \<longleftrightarrow> (\<exists>t. t \<in> set xs)"
  by (cases xs) auto

lemma ex_prefix_iff:
  "(\<exists>p. p \<in> set channel_prefixes \<and> P p) \<longleftrightarrow>
   P ''@'' \<or> P ''c/'' \<or> P ''channel/'' \<or> P ''user/''"
  by (auto simp: channel_prefixes_def)

lemma channelPattern_run_iff:
  "rx_run channelPattern m \<noteq> [] \<longleftrightarrow>
   (\<exists>p. p \<in> set channel_prefixes \<and>
      (\<exists>name. m = ''youtube.com/'' @ p @ name \<and> name \<noteq> [] \<and> CHR ''/'' \<notin> set name))"
proof -
  have "rx_run channelPattern m \<noteq> [] \<longleftrightarrow> (\<exists>t. t \<in> set (rx_run channelPattern m))"
    by (rule nonempty_iff_member)
  also have "\<dots> \<longleftrightarrow>
    (\<exists>p. p \<in> set channel_prefixes \<and>
      (\<exists>name. m = ''youtube.com/'' @ p @ name \<and> name \<noteq> [] \<and> CHR ''/'' \<notin> set name))"
    unfolding ex_prefix_iff channelPattern_def lits_run_iff
    by (auto simp: lits_run_iff name_part_run_iff)
  finally show ?thesis .
qed

text \<open>
  The classifier accepts exactly the addresses that end in \<^verbatim>\<open>youtube.com/\<close>, one of the
  four path styles and a non-empty identifier without a slash. Nothing is asked of what
  stands in front of \<^verbatim>\<open>youtube.com/\<close>.
\<close>

lemma isChannelMainPage_iff:
  "isChannelMainPage url \<longleftrightarrow>
   (\<exists>pre p name. url = pre @ ''youtube.com/'' @ p @ name \<and> p \<in> set channel_prefixes \<and>
      name \<noteq> [] \<and> CHR ''/'' \<notin> set name)"
  unfolding isChannelMainPage_def rx_test_iff channelPattern_run_iff by blast

lemma str_includes_iff: "str_includes s t \<longleftrightarrow> (\<exists>pre post. s = pre @ t @ post)"
proof (induction s)
  case Nil
  then show ?case by auto
next
  case (Cons x s)
  have "(\<exists>pre post. x # s = pre @ t @ post) \<longleftrightarrow>
        (\<exists>post. x # s = t @ post) \<or> (\<exists>pre post. s = pre @ t @ post)"
    (is "?A \<longleftrightarrow> ?B \<or> ?C")
  proof
    assume ?A
    then obtain pre post where e: "x # s = pre @ t @ post" by blast
    show "?B \<or> ?C"
    proof (cases pre)
      case Nil
      then show ?thesis using e by auto
    next
      case (Cons y ys)
      then have "s = ys @ t @ post" using e by simp
      then show ?thesis by blast
    qed
  next
    assume "?B \<or> ?C"
    then show ?A
    proof
      assume ?B
      then obtain post where "x # s = [] @ t @ post" by auto
      then show ?A by blast
    next
      assume ?C
      then obtain pre post where "x # s = (x # pre) @ t @ post" by auto
      then show ?A by blast
    qed
  qed
  then show ?case by (simp add: Cons.IH prefix_def)
qed

subsection \<open>An address followed by one more segment\<close>

text \<open>The text after the last slash of a string, and the text before it, are determined.\<close>

lemma split_last:
  "u @ c # v = u' @ c # v' \<Longrightarrow> c \<notin> set v \<Longrightarrow> c \<notin> set v' \<Longrightarrow> u = u' \<and> v = v'"
proof (induction u arbitrary: u')
  case Nil
  then show ?case by (cases u') auto
next
  case (Cons a u)
  then show ?case by (cases u') auto
qed

lemma ends_in_host:
  assumes h: "isChannelMainPage (b @ CHR ''/'' # seg)" and ns: "CHR ''/'' \<notin> set seg"
  shows "(\<exists>x name. b = x @ ''youtube.com'' \<and> seg = ''@'' @ name \<and> name \<noteq> []) \<or>
    (\<exists>x. b = x @ ''youtube.com/c'' \<and> seg \<noteq> []) \<or>
    (\<exists>x. b = x @ ''youtube.com/channel'' \<and> seg \<noteq> []) \<or>
    (\<exists>x. b = x @ ''youtube.com/user'' \<and> seg \<noteq> [])"
proof -
  from h obtain pre p name where
    e: "b @ CHR ''/'' # seg = pre @ ''youtube.com/'' @ p @ name" and p: "p \<in> set channel_prefixes"
    and n: "name \<noteq> []" "CHR ''/'' \<notin> set name"
    unfolding isChannelMainPage_iff by blast
  from p consider "p = ''@''" | "p = ''c/''" | "p = ''channel/''" | "p = ''user/''"
    by (auto simp: channel_prefixes_def)
  then show ?thesis
  proof cases
    case 1
    have "b @ CHR ''/'' # seg = (pre @ ''youtube.com'') @ CHR ''/'' # (''@'' @ name)"
      using e 1 by simp
    from split_last[OF this ns] n show ?thesis by auto
  next
    case 2
    have "b @ CHR ''/'' # seg = (pre @ ''youtube.com/c'') @ CHR ''/'' # name"
      using e 2 by simp
    from split_last[OF this ns] n show ?thesis by auto
  next
    case 3
    have "b @ CHR ''/'' # seg = (pre @ ''youtube.com/channel'') @ CHR ''/'' # name"
      using e 3 by simp
    from split_last[OF this ns] n show ?thesis by auto
  next
    case 4
    have "b @ CHR ''/'' # seg = (pre @ ''youtube.com/user'') @ CHR ''/'' # name"
      using e 4 by simp
    from split_last[OF this ns] n show ?thesis by auto
  qed
qed

lemma host_tail_c: "x @ ''youtube.com'' \<noteq> y @ ''youtube.com/c''"
proof
  assume "x @ ''youtube.com'' = y @ ''youtube.com/c''"
  then have "last (x @ ''youtube.com'') = last (y @ ''youtube.com/c'')" by (rule arg_cong)
  then show False by simp
qed

lemma host_tail_channel: "x @ ''youtube.com'' \<noteq> y @ ''youtube.com/channel''"
proof
  assume "x @ ''youtube.com'' = y @ ''youtube.com/channel''"
  then have "last (x @ ''youtube.com'') = last (y @ ''youtube.com/channel'')" by (rule arg_cong)
  then show False by simp
qed

lemma host_tail_user: "x @ ''youtube.com'' \<noteq> y @ ''youtube.com/user''"
proof
  assume "x @ ''youtube.com'' = y @ ''youtube.com/user''"
  then have "last (x @ ''youtube.com'') = last (y @ ''youtube.com/user'')" by (rule arg_cong)
  then show False by simp
qed

lemma legacy_root_not_main:
  assumes "w \<in> {''c'', ''channel'', ''user''}"
  shows "\<not> isChannelMainPage (x @ ''youtube.com/'' @ w)"
proof
  assume m: "isChannelMainPage (x @ ''youtube.com/'' @ w)"
  have w: "CHR ''/'' \<notin> set w" "w \<noteq> []" "\<And>name. w \<noteq> ''@'' @ name" using assms by auto
  have "x @ ''youtube.com/'' @ w = (x @ ''youtube.com'') @ CHR ''/'' # w" by simp
  with m have "isChannelMainPage ((x @ ''youtube.com'') @ CHR ''/'' # w)" by simp
  from ends_in_host[OF this w(1)] w(3) show False
    using host_tail_c host_tail_channel host_tail_user by blast
qed

text \<open>
  One more segment after a channel main page is accepted again in one case only: the
  main page itself ends in \<^verbatim>\<open>youtube.com\<close> and the segment is \<^verbatim>\<open>@\<close> and an identifier.
\<close>

lemma sub_path_iff:
  assumes "isChannelMainPage a" "CHR ''/'' \<notin> set seg"
  shows "isChannelMainPage (a @ ''/'' @ seg) \<longleftrightarrow>
         (\<exists>x name. a = x @ ''youtube.com'' \<and> seg = ''@'' @ name \<and> name \<noteq> [])"
proof
  assume "isChannelMainPage (a @ ''/'' @ seg)"
  then have "isChannelMainPage (a @ CHR ''/'' # seg)" by simp
  from ends_in_host[OF this assms(2)] assms(1)
  show "\<exists>x name. a = x @ ''youtube.com'' \<and> seg = ''@'' @ name \<and> name \<noteq> []"
    using legacy_root_not_main[of "''c''"] legacy_root_not_main[of "''channel''"]
      legacy_root_not_main[of "''user''"] by auto
next
  assume "\<exists>x name. a = x @ ''youtube.com'' \<and> seg = ''@'' @ name \<and> name \<noteq> []"
  then obtain x name where "a = x @ ''youtube.com''" "seg = ''@'' @ name" "name \<noteq> []" by blast
  then have "a @ ''/'' @ seg = x @ ''youtube.com/'' @ ''@'' @ name \<and> ''@'' \<in> set channel_prefixes
      \<and> name \<noteq> [] \<and> CHR ''/'' \<notin> set name"
    using assms(2) by (simp add: channel_prefixes_def)
  then show "isChannelMainPage (a @ ''/'' @ seg)"
    unfolding isChannelMainPage_iff by blast
qed

lemma sub_tab_not_main:
  assumes "isChannelMainPage a" "CHR ''/'' \<notin> set seg" "\<And>name. seg \<noteq> ''@'' @ name"
  shows "\<not> isChannelMainPage (a @ ''/'' @ seg)"
  using sub_path_iff[OF assms(1,2)] assms(3) by blast

text \<open>
  In particular the sub-tabs of a channel and a single trailing slash are rejected after
  every channel main page.
\<close>

lemma named_sub_tabs_not_main:
  assumes "isChannelMainPage a"
  shows "\<not> isChannelMainPage (a @ ''/videos'')"
    and "\<not> isChannelMainPage (a @ ''/about'')"
    and "\<not> isChannelMainPage (a @ ''/community'')"
    and "\<not> isChannelMainPage (a @ ''/playlists'')"
    and "\<not> isChannelMainPage (a @ ''/'')"
  using sub_tab_not_main[OF assms, of "''videos''"] sub_tab_not_main[OF assms, of "''about''"]
    sub_tab_not_main[OF assms, of "''community''"] sub_tab_not_main[OF assms, of "''playlists''"]
    sub_tab_not_main[OF assms, of "[]"]
  by simp_all

lemma foreign_address_not_main:
  assumes "\<not> str_includes a ''youtube.com/''"
  shows "\<not> isChannelMainPage a"
proof
  assume "isChannelMainPage a"
  then obtain pre p name where "a = pre @ ''youtube.com/'' @ (p @ name)"
    unfolding isChannelMainPage_iff by auto
  then have "str_includes a ''youtube.com/''"
    unfolding str_includes_iff by blast
  with assms show False by simp
qed

section \<open>The effects of the tab activator and of the orchestrator\<close>

lemma console_log_fields [simp]:
  "querySelector (console_log args b) = querySelector b"
  "href (console_log args b) = href b"
  "clicked (console_log args b) = clicked b"
  "scheduled (console_log args b) = scheduled b"
  "console (console_log args b) = console b @ [args]"
  by (simp_all add: console_log_def)

lemma clickFirst_none:
  "\<forall>sel\<in>set sels. querySelector b sel = None \<Longrightarrow> clickFirst sels b = (False, b)"
  by (induction sels) auto

lemma clickFirst_some:
  "\<exists>sel\<in>set sels. querySelector b sel \<noteq> None \<Longrightarrow>
   \<exists>sel tab. sel \<in> set sels \<and> querySelector b sel = Some tab \<and>
     clickFirst sels b =
       (True, console_log [''[YouTube Videos Tab] Clicked Videos tab'']
                (b\<lparr>clicked := clicked b @ [tab]\<rparr>))"
proof (induction sels)
  case Nil
  then show ?case by simp
next
  case (Cons s sels)
  show ?case
  proof (cases "querySelector b s")
    case None
    with Cons.prems have "\<exists>sel\<in>set sels. querySelector b sel \<noteq> None" by auto
    from Cons.IH[OF this] None show ?thesis by auto
  next
    case (Some tab)
    then show ?thesis by auto
  qed
qed

lemma clickVideosTab_none:
  "\<forall>sel\<in>set selectors. querySelector b sel = None \<Longrightarrow> clickVideosTab b = (False, b)"
  unfolding clickVideosTab_def by (rule clickFirst_none)

lemma clickVideosTab_some:
  "\<exists>sel\<in>set selectors. querySelector b sel \<noteq> None \<Longrightarrow>
   \<exists>sel tab. sel \<in> set selectors \<and> querySelector b sel = Some tab \<and>
     clickVideosTab b =
       (True, console_log [''[YouTube Videos Tab] Clicked Videos tab'']
                (b\<lparr>clicked := clicked b @ [tab]\<rparr>))"
  unfolding clickVideosTab_def by (rule clickFirst_some)

lemma switch_ineligible:
  "\<not> isChannelMainPage a \<or> isOnVideosTab a \<Longrightarrow> switchToVideosTab a b = b"
  by (simp add: switchToVideosTab_def)

lemma switch_no_tab:
  assumes "isChannelMainPage a" "\<not> isOnVideosTab a"
    and "\<forall>sel\<in>set selectors. querySelector b sel = None"
  shows "switchToVideosTab a b =
    (console_log [''[YouTube Videos Tab] Channel main page detected''] b)
      \<lparr>scheduled := scheduled b @ [(Retry a, 500)]\<rparr>"
proof -
  let ?b1 = "console_log [''[YouTube Videos Tab] Channel main page detected''] b"
  have "\<forall>sel\<in>set selectors. querySelector ?b1 sel = None" using assms(3) by simp
  then have "clickVideosTab ?b1 = (False, ?b1)" by (rule clickVideosTab_none)
  then show ?thesis using assms(1,2) by (simp add: switchToVideosTab_def)
qed

lemma switch_tab:
  assumes "isChannelMainPage a" "\<not> isOnVideosTab a"
    and "\<exists>sel\<in>set selectors. querySelector b sel \<noteq> None"
  shows "\<exists>sel tab. sel \<in> set selectors \<and> querySelector b sel = Some tab \<and>
    switchToVideosTab a b =
      console_log [''[YouTube Videos Tab] Clicked Videos tab'']
        ((console_log [''[YouTube Videos Tab] Channel main page detected''] b)
           \<lparr>clicked := clicked b @ [tab]\<rparr>)"
proof -
  let ?b1 = "console_log [''[YouTube Videos Tab] Channel main page detected''] b"
  have "\<exists>sel\<in>set selectors. querySelector ?b1 sel \<noteq> None" using assms(3) by simp
  from clickVideosTab_some[OF this] obtain sel tab where
    "sel \<in> set selectors" "querySelector ?b1 sel = Some tab"
    "clickVideosTab ?b1 =
       (True, console_log [''[YouTube Videos Tab] Clicked Videos tab'']
                (?b1\<lparr>clicked := clicked ?b1 @ [tab]\<rparr>))"
    by blast
  then have "sel \<in> set selectors \<and> querySelector b sel = Some tab \<and>
    switchToVideosTab a b =
      console_log [''[YouTube Videos Tab] Clicked Videos tab'']
        (?b1\<lparr>clicked := clicked b @ [tab]\<rparr>)"
    using assms(1,2) by (simp add: switchToVideosTab_def)
  then show ?thesis by blast
qed

lemma callback_no_tab:
  assumes "\<forall>sel\<in>set selectors. querySelector b sel = None"
  shows "run_callback (Retry a) b =
     console_log [''[YouTube Videos Tab] Navigated to:'', a @ ''/videos'']
       (b\<lparr>href := a @ ''/videos''\<rparr>)"
  using clickVideosTab_none[OF assms]
  by (simp add: navigateToVideosTab_def getVideosUrl_def Let_def)

lemma callback_tab:
  assumes "\<exists>sel\<in>set selectors. querySelector b sel \<noteq> None"
  shows "\<exists>sel tab. sel \<in> set selectors \<and> querySelector b sel = Some tab \<and>
     run_callback (Retry a) b =
       console_log [''[YouTube Videos Tab] Clicked Videos tab'']
         (b\<lparr>clicked := clicked b @ [tab]\<rparr>)"
proof -
  from clickVideosTab_some[OF assms] obtain sel tab where
    "sel \<in> set selectors" "querySelector b sel = Some tab"
    "clickVideosTab b =
       (True, console_log [''[YouTube Videos Tab] Clicked Videos tab'']
                (b\<lparr>clicked := clicked b @ [tab]\<rparr>))"
    by blast
  then have "sel \<in> set selectors \<and> querySelector b sel = Some tab \<and>
     run_callback (Retry a) b =
       console_log [''[YouTube Videos Tab] Clicked Videos tab'']
         (b\<lparr>clicked := clicked b @ [tab]\<rparr>)"
    by simp
  then show ?thesis by blast
qed

declare run_callback.simps [simp del]

subsection \<open>The classifier and the two pages at concrete addresses\<close>

lemma mkbhd_main: "isChannelMainPage ''https://www.youtube.com/@mkbhd''"
  by (simp add: isChannelMainPage_def channelPattern_def name_part_def)

lemma mkbhd_not_videos: "\<not> isOnVideosTab ''https://www.youtube.com/@mkbhd''"
  by (simp add: isOnVideosTab_def)

lemma watch_not_main: "\<not> isChannelMainPage ''https://www.youtube.com/watch?v=dQw4w9WgXcQ''"
  by (simp add: isChannelMainPage_def channelPattern_def name_part_def)

lemma blank_no_tab: "\<forall>sel\<in>set selectors. querySelector (blank_page u) sel = None"
  by (simp add: blank_page_def)

lemma tab_has_tab: "\<exists>sel\<in>set selectors. querySelector (tab_page u) sel \<noteq> None"
  by (simp add: tab_page_def blank_page_def selectors_def)

section \<open>The address classifier\<close>

text \<open>
  C3. Every address made of a root that ends in the host name \<^verbatim>\<open>youtube.com\<close>, followed
  by \<^verbatim>\<open>/@handle\<close>, \<^verbatim>\<open>/c/name\<close>, \<^verbatim>\<open>/channel/id\<close> or \<^verbatim>\<open>/user/name\<close>, where the identifier
  is not empty and no further path segment follows it (it holds no slash), is a channel
  main page: \<^verbatim>\<open>isChannelMainPage\<close> returns true.
\<close>

theorem main_page_shapes:
  assumes "suffix ''youtube.com'' root" "name \<noteq> []" "CHR ''/'' \<notin> set name"
  shows "isChannelMainPage (root @ ''/@'' @ name)
       \<and> isChannelMainPage (root @ ''/c/'' @ name)
       \<and> isChannelMainPage (root @ ''/channel/'' @ name)
       \<and> isChannelMainPage (root @ ''/user/'' @ name)"
proof -
  from assms(1) obtain pre where root: "root = pre @ ''youtube.com''"
    by (auto simp: suffix_def)
  have shape: "isChannelMainPage (root @ ''/'' @ p @ name)" if "p \<in> set channel_prefixes" for p
  proof -
    have "root @ ''/'' @ p @ name = pre @ ''youtube.com/'' @ p @ name"
      by (simp add: root)
    with that assms(2,3) show ?thesis
      unfolding isChannelMainPage_iff by blast
  qed
  have "isChannelMainPage (root @ ''/'' @ ''@'' @ name)"
    "isChannelMainPage (root @ ''/'' @ ''c/'' @ name)"
    "isChannelMainPage (root @ ''/'' @ ''channel/'' @ name)"
    "isChannelMainPage (root @ ''/'' @ ''user/'' @ name)"
    by (rule shape, simp add: channel_prefixes_def)+
  then show ?thesis by simp
qed

theorem main_page_shapes_witness:
  "suffix ''youtube.com'' ''https://www.youtube.com'' \<and> ''mkbhd'' \<noteq> []
   \<and> CHR ''/'' \<notin> set ''mkbhd''
   \<and> isChannelMainPage ''https://www.youtube.com/@mkbhd''
   \<and> isChannelMainPage ''https://www.youtube.com/c/mkbhd''
   \<and> isChannelMainPage ''https://www.youtube.com/channel/mkbhd''
   \<and> isChannelMainPage ''https://www.youtube.com/user/mkbhd''"
proof -
  have h: "suffix ''youtube.com'' ''https://www.youtube.com''"
  proof -
    have "''https://www.youtube.com'' = ''https://www.'' @ ''youtube.com''" by simp
    then show ?thesis unfolding suffix_def by blast
  qed
  have n: "''mkbhd'' \<noteq> []" "CHR ''/'' \<notin> set ''mkbhd''" by simp_all
  from main_page_shapes[OF h n] h n show ?thesis by simp
qed

text \<open>
  C4. The address \<^verbatim>\<open>https://www.youtube.com/@youtube.com\<close> is a channel main page, and
  with the sub-path segment \<^verbatim>\<open>/@x\<close> appended \<^verbatim>\<open>isChannelMainPage\<close> still returns true:
  the pattern finds \<^verbatim>\<open>youtube.com/@x\<close> at the end of the address.
\<close>

theorem sub_path_accepted:
  "isChannelMainPage ''https://www.youtube.com/@youtube.com''
   \<and> isChannelMainPage (''https://www.youtube.com/@youtube.com'' @ ''/@x'')"
  by (simp add: isChannelMainPage_def channelPattern_def name_part_def)

text \<open>
  C5. \<^verbatim>\<open>isOnVideosTab\<close> returns true exactly for the addresses in which the text
  \<^verbatim>\<open>/videos\<close> occurs, at any place.
\<close>

theorem isOnVideosTab_iff:
  "isOnVideosTab url \<longleftrightarrow> (\<exists>pre post. url = pre @ ''/videos'' @ post)"
  unfolding isOnVideosTab_def by (rule str_includes_iff)

theorem isOnVideosTab_iff_witness:
  "isOnVideosTab ''https://www.youtube.com/@mkbhd/videos?view=0''
   \<and> \<not> isOnVideosTab ''https://www.youtube.com/@mkbhd''"
proof -
  have "''https://www.youtube.com/@mkbhd/videos?view=0'' =
        ''https://www.youtube.com/@mkbhd'' @ ''/videos'' @ ''?view=0''" by simp
  then have "\<exists>pre post. ''https://www.youtube.com/@mkbhd/videos?view=0'' = pre @ ''/videos'' @ post"
    by blast
  then have "isOnVideosTab ''https://www.youtube.com/@mkbhd/videos?view=0''"
    by (simp only: isOnVideosTab_iff)
  then show ?thesis using mkbhd_not_videos by simp
qed

text \<open>
  C7. \<^verbatim>\<open>getVideosUrl\<close> returns its argument with \<^verbatim>\<open>/videos\<close> appended, whatever the
  argument is; for \<^verbatim>\<open>https://host/@x\<close> it returns \<^verbatim>\<open>https://host/@x/videos\<close>.
\<close>

theorem getVideosUrl_append:
  "getVideosUrl a = a @ ''/videos''
   \<and> getVideosUrl ''https://host/@x'' = ''https://host/@x/videos''"
  by (simp add: getVideosUrl_def)

text \<open>
  C10. The address that \<^verbatim>\<open>getVideosUrl\<close> builds is always on the videos tab; built from a
  channel main page it is no channel main page; and \<^verbatim>\<open>switchToVideosTab\<close> leaves the page
  as it is when called with it, so the rewritten address does not start the script again.
\<close>

theorem no_redirect_loop:
  "isOnVideosTab (getVideosUrl a)
   \<and> (isChannelMainPage a \<longrightarrow> \<not> isChannelMainPage (getVideosUrl a))
   \<and> switchToVideosTab (getVideosUrl a) b = b"
proof -
  have v: "isOnVideosTab (getVideosUrl a)"
  proof -
    have "getVideosUrl a = a @ ''/videos'' @ []" by (simp add: getVideosUrl_def)
    then show ?thesis unfolding isOnVideosTab_def str_includes_iff by blast
  qed
  have m: "\<not> isChannelMainPage (getVideosUrl a)" if "isChannelMainPage a"
  proof -
    have "\<not> isChannelMainPage (a @ ''/'' @ ''videos'')"
      by (rule sub_tab_not_main[OF that]) simp_all
    then show ?thesis by (simp add: getVideosUrl_def)
  qed
  from v have "switchToVideosTab (getVideosUrl a) b = b"
    by (simp add: switch_ineligible)
  with v m show ?thesis by blast
qed

theorem no_redirect_loop_witness:
  "isChannelMainPage ''https://www.youtube.com/@mkbhd''
   \<and> isOnVideosTab ''https://www.youtube.com/@mkbhd/videos''
   \<and> \<not> isChannelMainPage ''https://www.youtube.com/@mkbhd/videos''
   \<and> switchToVideosTab ''https://www.youtube.com/@mkbhd/videos''
        (tab_page ''https://www.youtube.com/@mkbhd/videos'')
      = tab_page ''https://www.youtube.com/@mkbhd/videos''"
  using no_redirect_loop[of "''https://www.youtube.com/@mkbhd''"
      "tab_page ''https://www.youtube.com/@mkbhd/videos''"] mkbhd_main
  by (simp add: getVideosUrl_def)

section \<open>The orchestrator\<close>

text \<open>
  C1. \<^verbatim>\<open>switchToVideosTab\<close> is to do nothing for an address of another domain than the
  host's. At the address \<^verbatim>\<open>https://notyoutube.com/@channel\<close> it does act: the classifier
  accepts the address, so on a page without a Videos tab element the scheduler is called
  with the retry and 500, the retry navigates to the address with \<^verbatim>\<open>/videos\<close> appended,
  and on a page with a tab element the element is clicked.
\<close>

theorem look_alike_host_acts:
  "isChannelMainPage ''https://notyoutube.com/@channel''
   \<and> \<not> isOnVideosTab ''https://notyoutube.com/@channel''
   \<and> scheduled (switchToVideosTab ''https://notyoutube.com/@channel''
                  (blank_page ''https://notyoutube.com/@channel''))
       = [(Retry ''https://notyoutube.com/@channel'', 500)]
   \<and> href (run_callback (Retry ''https://notyoutube.com/@channel'')
              (blank_page ''https://notyoutube.com/@channel''))
       = ''https://notyoutube.com/@channel/videos''
   \<and> clicked (switchToVideosTab ''https://notyoutube.com/@channel''
                (tab_page ''https://notyoutube.com/@channel''))
       = [7]"
proof -
  let ?a = "''https://notyoutube.com/@channel''"
  have m: "isChannelMainPage ?a"
    by (simp add: isChannelMainPage_def channelPattern_def name_part_def)
  have v: "\<not> isOnVideosTab ?a"
    by (simp add: isOnVideosTab_def)
  have s: "scheduled (switchToVideosTab ?a (blank_page ?a)) = [(Retry ?a, 500)]"
    unfolding switch_no_tab[OF m v blank_no_tab] by (simp add: blank_page_def)
  have h: "href (run_callback (Retry ?a) (blank_page ?a)) = ?a @ ''/videos''"
    unfolding callback_no_tab[OF blank_no_tab] by simp
  have c: "clicked (switchToVideosTab ?a (tab_page ?a)) = [7]"
    using m v
    by (simp add: switchToVideosTab_def clickVideosTab_def selectors_def tab_page_def
        blank_page_def)
  from m v s h c show ?thesis by simp
qed

theorem look_alike_host_acts_witness:
  "switchToVideosTab ''https://notyoutube.com/@channel''
     (blank_page ''https://notyoutube.com/@channel'')
   \<noteq> blank_page ''https://notyoutube.com/@channel''"
proof
  assume "switchToVideosTab ''https://notyoutube.com/@channel''
     (blank_page ''https://notyoutube.com/@channel'')
   = blank_page ''https://notyoutube.com/@channel''"
  then have "scheduled (switchToVideosTab ''https://notyoutube.com/@channel''
     (blank_page ''https://notyoutube.com/@channel''))
   = scheduled (blank_page ''https://notyoutube.com/@channel'')"
    by (rule arg_cong)
  with look_alike_host_acts show False
    by (simp add: blank_page_def)
qed

text \<open>
  The part of C1 that the script keeps: an address that contains \<^verbatim>\<open>/videos\<close>, or that the
  classifier rejects, or in which \<^verbatim>\<open>youtube.com/\<close> does not occur, leaves the page as
  it is: no click, no navigation, no call of the scheduler, no log line.
\<close>

lemma switch_idle:
  assumes "isOnVideosTab a \<or> \<not> isChannelMainPage a \<or> \<not> str_includes a ''youtube.com/''"
  shows "switchToVideosTab a b = b"
  using assms foreign_address_not_main[of a] switch_ineligible[of a b] by blast

text \<open>
  C6. For an eligible address (a channel main page that is not on the videos tab), when
  some selector finds a Videos tab element in the page, \<^verbatim>\<open>switchToVideosTab\<close> calls
  \<^verbatim>\<open>click()\<close> on one such element, once, and does not call the scheduler; the location
  stays as it was.
\<close>

theorem click_flow:
  assumes "isChannelMainPage a" "\<not> isOnVideosTab a"
    and "\<exists>sel\<in>set selectors. querySelector b sel \<noteq> None"
  shows "(\<exists>sel tab. sel \<in> set selectors \<and> querySelector b sel = Some tab
            \<and> clicked (switchToVideosTab a b) = clicked b @ [tab])
       \<and> scheduled (switchToVideosTab a b) = scheduled b
       \<and> href (switchToVideosTab a b) = href b"
proof -
  from switch_tab[OF assms] obtain sel tab where
    st: "sel \<in> set selectors" "querySelector b sel = Some tab" and
    r: "switchToVideosTab a b =
      console_log [''[YouTube Videos Tab] Clicked Videos tab'']
        ((console_log [''[YouTube Videos Tab] Channel main page detected''] b)
           \<lparr>clicked := clicked b @ [tab]\<rparr>)"
    by blast
  have "clicked (switchToVideosTab a b) = clicked b @ [tab]"
    "scheduled (switchToVideosTab a b) = scheduled b"
    "href (switchToVideosTab a b) = href b"
    unfolding r by simp_all
  with st show ?thesis by blast
qed

theorem click_flow_witness:
  "isChannelMainPage ''https://www.youtube.com/@mkbhd''
   \<and> \<not> isOnVideosTab ''https://www.youtube.com/@mkbhd''
   \<and> querySelector (tab_page ''https://www.youtube.com/@mkbhd'') (hd selectors) = Some 7
   \<and> clicked (switchToVideosTab ''https://www.youtube.com/@mkbhd''
                (tab_page ''https://www.youtube.com/@mkbhd'')) = [7]
   \<and> scheduled (switchToVideosTab ''https://www.youtube.com/@mkbhd''
                (tab_page ''https://www.youtube.com/@mkbhd'')) = []
   \<and> href (switchToVideosTab ''https://www.youtube.com/@mkbhd''
                (tab_page ''https://www.youtube.com/@mkbhd'')) = ''https://www.youtube.com/@mkbhd''"
proof -
  let ?a = "''https://www.youtube.com/@mkbhd''"
  note r = click_flow[OF mkbhd_main mkbhd_not_videos tab_has_tab[of ?a]]
  from r obtain sel tab where
    q: "querySelector (tab_page ?a) sel = Some tab" and
    c: "clicked (switchToVideosTab ?a (tab_page ?a)) = clicked (tab_page ?a) @ [tab]"
    by blast
  from q have "tab = 7"
    by (simp add: tab_page_def blank_page_def split: if_splits)
  with c have 1: "clicked (switchToVideosTab ?a (tab_page ?a)) = [7]"
    by (simp add: tab_page_def blank_page_def)
  have 2: "scheduled (switchToVideosTab ?a (tab_page ?a)) = []"
    "href (switchToVideosTab ?a (tab_page ?a)) = ?a"
    using r by (simp_all add: tab_page_def blank_page_def)
  have 3: "querySelector (tab_page ?a) (hd selectors) = Some 7"
    by (simp add: tab_page_def)
  from 1 2 3 mkbhd_main mkbhd_not_videos show ?thesis by simp
qed

text \<open>
  C2. For an eligible address, when no selector finds a Videos tab element at the call,
  \<^verbatim>\<open>switchToVideosTab\<close> calls the scheduler once, with the retry callback and the delay
  500, and neither clicks nor navigates itself. When the callback runs in a page where
  still no selector finds an element, it sets the location to the address with
  \<^verbatim>\<open>/videos\<close> appended and clicks nothing; when it runs in a page where a selector finds
  an element, it clicks one such element and leaves the location as it is.
\<close>

theorem retry_flow:
  assumes "isChannelMainPage a" "\<not> isOnVideosTab a"
    and "\<forall>sel\<in>set selectors. querySelector b sel = None"
  shows "scheduled (switchToVideosTab a b) = scheduled b @ [(Retry a, 500)]
       \<and> clicked (switchToVideosTab a b) = clicked b
       \<and> href (switchToVideosTab a b) = href b
       \<and> (\<forall>b'. (\<forall>sel\<in>set selectors. querySelector b' sel = None) \<longrightarrow>
             href (run_callback (Retry a) b') = a @ ''/videos''
           \<and> clicked (run_callback (Retry a) b') = clicked b')
       \<and> (\<forall>b'. (\<exists>sel\<in>set selectors. querySelector b' sel \<noteq> None) \<longrightarrow>
             (\<exists>sel tab. sel \<in> set selectors \<and> querySelector b' sel = Some tab
                \<and> clicked (run_callback (Retry a) b') = clicked b' @ [tab])
           \<and> href (run_callback (Retry a) b') = href b')"
proof -
  have s: "switchToVideosTab a b =
    (console_log [''[YouTube Videos Tab] Channel main page detected''] b)
      \<lparr>scheduled := scheduled b @ [(Retry a, 500)]\<rparr>"
    using assms by (rule switch_no_tab)
  have n: "href (run_callback (Retry a) b') = a @ ''/videos''
           \<and> clicked (run_callback (Retry a) b') = clicked b'"
    if "\<forall>sel\<in>set selectors. querySelector b' sel = None" for b'
    unfolding callback_no_tab[OF that] by simp
  have t: "(\<exists>sel tab. sel \<in> set selectors \<and> querySelector b' sel = Some tab
                \<and> clicked (run_callback (Retry a) b') = clicked b' @ [tab])
           \<and> href (run_callback (Retry a) b') = href b'"
    if "\<exists>sel\<in>set selectors. querySelector b' sel \<noteq> None" for b'
  proof -
    from callback_tab[OF that, of a] obtain sel tab where
      st: "sel \<in> set selectors" "querySelector b' sel = Some tab" and
      r: "run_callback (Retry a) b' =
       console_log [''[YouTube Videos Tab] Clicked Videos tab'']
         (b'\<lparr>clicked := clicked b' @ [tab]\<rparr>)"
      by blast
    have "clicked (run_callback (Retry a) b') = clicked b' @ [tab]"
      "href (run_callback (Retry a) b') = href b'"
      unfolding r by simp_all
    with st show ?thesis by blast
  qed
  from s n t show ?thesis by simp
qed

theorem retry_flow_witness:
  "scheduled (switchToVideosTab ''https://www.youtube.com/@mkbhd''
                (blank_page ''https://www.youtube.com/@mkbhd''))
     = [(Retry ''https://www.youtube.com/@mkbhd'', 500)]
   \<and> href (run_callback (Retry ''https://www.youtube.com/@mkbhd'')
             (blank_page ''https://www.youtube.com/@mkbhd''))
     = ''https://www.youtube.com/@mkbhd/videos''
   \<and> clicked (run_callback (Retry ''https://www.youtube.com/@mkbhd'')
                (tab_page ''https://www.youtube.com/@mkbhd'')) = [7]
   \<and> href (run_callback (Retry ''https://www.youtube.com/@mkbhd'')
             (tab_page ''https://www.youtube.com/@mkbhd''))
     = ''https://www.youtube.com/@mkbhd''"
proof -
  let ?a = "''https://www.youtube.com/@mkbhd''"
  note r = retry_flow[OF mkbhd_main mkbhd_not_videos blank_no_tab[of ?a]]
  have 1: "scheduled (switchToVideosTab ?a (blank_page ?a)) = [(Retry ?a, 500)]"
    using r by (simp add: blank_page_def)
  have 2: "href (run_callback (Retry ?a) (blank_page ?a)) = ?a @ ''/videos''"
    using r blank_no_tab[of ?a] by blast
  have 3: "clicked (run_callback (Retry ?a) (tab_page ?a)) = [7]"
    by (simp add: run_callback.simps clickVideosTab_def selectors_def tab_page_def
        blank_page_def)
  have 4: "href (run_callback (Retry ?a) (tab_page ?a)) = href (tab_page ?a)"
    using r tab_has_tab[of ?a] by blast
  from 1 2 3 4 show ?thesis by (simp add: tab_page_def blank_page_def)
qed

text \<open>
  C8. The retry callback holds the address \<^verbatim>\<open>switchToVideosTab\<close> was called with and
  checks nothing but the presence of a tab element: when no selector finds one as it
  runs, it sets the location to that address with \<^verbatim>\<open>/videos\<close> appended, whatever the
  location of the page is by then.
\<close>

theorem retry_uses_captured_address:
  assumes "isChannelMainPage a" "\<not> isOnVideosTab a"
    and "\<forall>sel\<in>set selectors. querySelector b sel = None"
    and "\<forall>sel\<in>set selectors. querySelector b' sel = None"
  shows "scheduled (switchToVideosTab a b) = scheduled b @ [(Retry a, 500)]
       \<and> (\<forall>u. href (run_callback (Retry a) (b'\<lparr>href := u\<rparr>)) = getVideosUrl a)"
proof -
  have s: "scheduled (switchToVideosTab a b) = scheduled b @ [(Retry a, 500)]"
    unfolding switch_no_tab[OF assms(1,2,3)] by simp
  have "href (run_callback (Retry a) (b'\<lparr>href := u\<rparr>)) = getVideosUrl a" for u
  proof -
    have "\<forall>sel\<in>set selectors. querySelector (b'\<lparr>href := u\<rparr>) sel = None"
      using assms(4) by simp
    from callback_no_tab[OF this] show ?thesis by (simp add: getVideosUrl_def)
  qed
  with s show ?thesis by blast
qed

theorem retry_uses_captured_address_witness:
  "\<not> isChannelMainPage ''https://www.youtube.com/watch?v=dQw4w9WgXcQ''
   \<and> scheduled (switchToVideosTab ''https://www.youtube.com/@mkbhd''
                  (blank_page ''https://www.youtube.com/@mkbhd''))
      = [(Retry ''https://www.youtube.com/@mkbhd'', 500)]
   \<and> href (run_callback (Retry ''https://www.youtube.com/@mkbhd'')
             (blank_page ''https://www.youtube.com/watch?v=dQw4w9WgXcQ''))
      = ''https://www.youtube.com/@mkbhd/videos''"
proof -
  let ?a = "''https://www.youtube.com/@mkbhd''"
  let ?w = "''https://www.youtube.com/watch?v=dQw4w9WgXcQ''"
  note r = retry_uses_captured_address[OF mkbhd_main mkbhd_not_videos
      blank_no_tab[of ?a] blank_no_tab[of ?w]]
  have 1: "scheduled (switchToVideosTab ?a (blank_page ?a)) = [(Retry ?a, 500)]"
    using r by (simp add: blank_page_def)
  from r have "href (run_callback (Retry ?a) ((blank_page ?w)\<lparr>href := ?w\<rparr>)) = getVideosUrl ?a"
    by blast
  then have 2: "href (run_callback (Retry ?a) (blank_page ?w)) = ?a @ ''/videos''"
    by (simp add: blank_page_def getVideosUrl_def)
  from 1 2 watch_not_main show ?thesis by simp
qed

section \<open>The change observer over a run of events\<close>

lemma handleUrlChange_same:
  "href (page st) = lastUrl st \<Longrightarrow> handleUrlChange st = st"
  by (simp add: handleUrlChange_def)

lemma handleUrlChange_changed:
  "href (page st) \<noteq> lastUrl st \<Longrightarrow>
   handleUrlChange st =
     st\<lparr>lastUrl := href (page st),
        page := switchToVideosTab (href (page st))
                  (console_log [''[YouTube Videos Tab] URL changed:'', href (page st)] (page st)),
        switchCalls := switchCalls st @ [href (page st)]\<rparr>"
  by (simp add: handleUrlChange_def Let_def)

lemma attach_inv: "observer_inv (attach b)"
  by (simp add: observer_inv_def attach_def Let_def)

lemma step_inv: "observer_inv st \<Longrightarrow> observer_inv (step e st)"
proof (cases e)
  case Mutation
  assume "observer_inv st"
  then show ?thesis
    using Mutation handleUrlChange_same[of st] handleUrlChange_changed[of st]
    by (cases "href (page st) = lastUrl st") (simp_all add: observer_inv_def)
next
  case (Timer cb)
  assume "observer_inv st"
  then show ?thesis using Timer by (simp add: observer_inv_def)
next
  case (Host f)
  assume "observer_inv st"
  then show ?thesis using Host by (simp add: observer_inv_def)
qed

lemma run_inv: "observer_inv st \<Longrightarrow> observer_inv (run evs st)"
  by (induction evs arbitrary: st) (simp_all add: step_inv)

text \<open>
  C9. On a mutation notification \<^verbatim>\<open>handleUrlChange\<close> does nothing when the current
  address is the last observed one. When the two differ it stores the current address as
  the last observed one and calls \<^verbatim>\<open>switchToVideosTab\<close> with it. So from the moment the
  script is attached, through any sequence of notifications, timers and changes of the
  page, the last observed address is the address of the latest call of
  \<^verbatim>\<open>switchToVideosTab\<close>.
\<close>

theorem change_observer:
  "(href (page st) = lastUrl st \<longrightarrow> handleUrlChange st = st)
   \<and> (href (page st) \<noteq> lastUrl st \<longrightarrow>
        handleUrlChange st =
          st\<lparr>lastUrl := href (page st),
             page := switchToVideosTab (href (page st))
                       (console_log [''[YouTube Videos Tab] URL changed:'', href (page st)]
                          (page st)),
             switchCalls := switchCalls st @ [href (page st)]\<rparr>)
   \<and> observer_inv (run evs (attach b))"
  using handleUrlChange_same[of st] handleUrlChange_changed[of st]
    run_inv[OF attach_inv, of evs b] by blast

theorem change_observer_witness:
  "lastUrl (run [Host (\<lambda>b. b\<lparr>href := ''https://www.youtube.com/@mkbhd''\<rparr>), Mutation, Mutation]
             (attach (blank_page ''https://www.youtube.com/'')))
     = ''https://www.youtube.com/@mkbhd''
   \<and> switchCalls (run [Host (\<lambda>b. b\<lparr>href := ''https://www.youtube.com/@mkbhd''\<rparr>), Mutation, Mutation]
             (attach (blank_page ''https://www.youtube.com/'')))
     = [''https://www.youtube.com/'', ''https://www.youtube.com/@mkbhd'']
   \<and> observer_inv (run [Host (\<lambda>b. b\<lparr>href := ''https://www.youtube.com/@mkbhd''\<rparr>), Mutation, Mutation]
             (attach (blank_page ''https://www.youtube.com/'')))"
proof -
  let ?home = "''https://www.youtube.com/''"
  let ?a = "''https://www.youtube.com/@mkbhd''"
  let ?go = "Host (\<lambda>b. b\<lparr>href := ?a\<rparr>)"
  define st0 where "st0 = attach (blank_page ?home)"
  define st1 where "st1 = step ?go st0"
  define st2 where "st2 = handleUrlChange st1"
  have l0: "lastUrl st0 = ?home" "switchCalls st0 = [?home]"
    by (simp_all add: st0_def attach_def blank_page_def Let_def)
  have l1: "lastUrl st1 = ?home" "switchCalls st1 = [?home]" "href (page st1) = ?a"
    using l0 by (simp_all add: st1_def)
  have d1: "href (page st1) \<noteq> lastUrl st1" using l1 by simp
  have e2: "st2 =
          st1\<lparr>lastUrl := href (page st1),
             page := switchToVideosTab (href (page st1))
                       (console_log [''[YouTube Videos Tab] URL changed:'', href (page st1)]
                          (page st1)),
             switchCalls := switchCalls st1 @ [href (page st1)]\<rparr>"
    unfolding st2_def using change_observer[of st1 "[]" "blank_page ?home"] d1 by blast
  have h1: "href (switchToVideosTab ?a
              (console_log [''[YouTube Videos Tab] URL changed:'', ?a] (page st1))) = ?a"
  proof -
    have "\<forall>sel\<in>set selectors. querySelector
        (console_log [''[YouTube Videos Tab] URL changed:'', ?a] (page st1)) sel = None"
      by (simp add: st1_def st0_def attach_def Let_def blank_page_def switch_ineligible
          isChannelMainPage_def channelPattern_def name_part_def)
    from switch_no_tab[OF mkbhd_main mkbhd_not_videos this] l1 show ?thesis by simp
  qed
  have l2: "lastUrl st2 = ?a" "switchCalls st2 = [?home, ?a]" "href (page st2) = ?a"
    using l1 h1 by (simp_all add: e2)
  have s2: "href (page st2) = lastUrl st2" using l2 by simp
  have e3: "handleUrlChange st2 = st2"
    using change_observer[of st2 "[]" "blank_page ?home"] s2 by blast
  have "run [?go, Mutation, Mutation] st0 = handleUrlChange st2"
    unfolding st2_def st1_def by simp
  with e3 have r: "run [?go, Mutation, Mutation] st0 = st2" by simp
  have "observer_inv (run [?go, Mutation, Mutation] (attach (blank_page ?home)))"
    using change_observer[of st0 "[?go, Mutation, Mutation]" "blank_page ?home"] by blast
  with r l2 show ?thesis by (simp add: st0_def)
qed

end
